theory Spec2Isabelle
  imports Complex_Main "HOL-Library.Sublist" "HOL-Library.Multiset"
begin

section \<open>JavaScript strings\<close>

text \<open>
  A JavaScript string is modelled as a \<^typ>\<open>string\<close>: a list of 8-bit characters, read as
  the UTF-16 code units below 256 (the Latin-1 range). \<open>length\<close> counts code units, as the
  \<open>length\<close> property of a JavaScript string does.
\<close>

definition is_space :: "char \<Rightarrow> bool" where
  \<comment> \<open>the class \<open>\s\<close> of a regular expression, and what \<open>trim\<close> strips\<close>
  "is_space c \<longleftrightarrow> c \<in> {CHR 0x09, CHR 0x0A, CHR 0x0B, CHR 0x0C, CHR 0x0D, CHR 0x20, CHR 0xA0}"

definition is_upper :: "char \<Rightarrow> bool" where
  \<comment> \<open>the class \<open>[A-Z]\<close>\<close>
  "is_upper c \<longleftrightarrow> 65 \<le> (of_char c :: nat) \<and> (of_char c :: nat) \<le> 90"

definition is_lower_alnum :: "char \<Rightarrow> bool" where
  \<comment> \<open>the class \<open>[a-z0-9]\<close>\<close>
  "is_lower_alnum c \<longleftrightarrow>
     (97 \<le> (of_char c :: nat) \<and> (of_char c :: nat) \<le> 122) \<or>
     (48 \<le> (of_char c :: nat) \<and> (of_char c :: nat) \<le> 57)"

definition is_word :: "char \<Rightarrow> bool" where
  \<comment> \<open>the class \<open>\w\<close>, that is \<open>[A-Za-z0-9_]\<close>\<close>
  "is_word c \<longleftrightarrow> is_upper c \<or> is_lower_alnum c \<or> c = CHR ''_''"

definition lower_char :: "char \<Rightarrow> char" where
  "lower_char c =
     (let n = (of_char c :: nat)
      in if (65 \<le> n \<and> n \<le> 90) \<or> (192 \<le> n \<and> n \<le> 222 \<and> n \<noteq> 215)
         then char_of (n + 32) else c)"

definition toLowerCase :: "string \<Rightarrow> string" where
  "toLowerCase s = map lower_char s"

definition trim :: "string \<Rightarrow> string" where
  "trim s = rev (dropWhile is_space (rev (dropWhile is_space s)))"

definition startsWith :: "string \<Rightarrow> string \<Rightarrow> bool" where
  "startsWith s t \<longleftrightarrow> take (length t) s = t"

definition endsWith :: "string \<Rightarrow> string \<Rightarrow> bool" where
  "endsWith s t \<longleftrightarrow> length t \<le> length s \<and> drop (length s - length t) s = t"

fun includes_str :: "string \<Rightarrow> string \<Rightarrow> bool" where
  "includes_str [] t = (t = [])"
| "includes_str (c # cs) t = (startsWith (c # cs) t \<or> includes_str cs t)"

definition slice0 :: "string \<Rightarrow> nat \<Rightarrow> string" where
  \<comment> \<open>\<open>s.slice(0, n)\<close>\<close>
  "slice0 s n = take n s"

fun join :: "string \<Rightarrow> string list \<Rightarrow> string" where
  "join sep [] = []"
| "join sep [x] = x"
| "join sep (x # y # ys) = x @ sep @ join sep (y # ys)"

text \<open>\<open>s.replace(/\s+/g, ' ')\<close>: every maximal run of white space becomes one space.\<close>

fun collapse_ws :: "string \<Rightarrow> string" where
  "collapse_ws [] = []"
| "collapse_ws (c # cs) =
     (if is_space c
      then (if cs \<noteq> [] \<and> is_space (hd cs) then collapse_ws cs else CHR '' '' # collapse_ws cs)
      else c # collapse_ws cs)"

text \<open>\<open>s.split(/\s+/)\<close>: the pieces between the maximal runs of white space; a run at either
  end leaves an empty piece there, and the empty string splits into one empty piece.\<close>

fun split_ws :: "string \<Rightarrow> string list" where
  "split_ws [] = [[]]"
| "split_ws (c # cs) =
     (if is_space c
      then (if cs \<noteq> [] \<and> is_space (hd cs) then split_ws cs else [] # split_ws cs)
      else (case split_ws cs of [] \<Rightarrow> [[c]] | t # ts \<Rightarrow> (c # t) # ts))"

text \<open>\<open>s.split('\n')\<close>: the lines of a string, at least one.\<close>

fun split_nl :: "string \<Rightarrow> string list" where
  "split_nl [] = [[]]"
| "split_nl (c # cs) =
     (if c = CHR 0x0A then [] # split_nl cs
      else (case split_nl cs of [] \<Rightarrow> [[c]] | t # ts \<Rightarrow> (c # t) # ts))"

section \<open>Location heuristics\<close>

definition norm_str :: "string \<Rightarrow> string" where
  "norm_str s = trim (toLowerCase s)"

definition tokens :: "string \<Rightarrow> string list" where
  "tokens s =
     filter (\<lambda>t. t \<noteq> [])
       (split_ws (map (\<lambda>c. if is_lower_alnum c \<or> is_space c then c else CHR '' '') (norm_str s)))"

definition STATE_DOMAINS :: "(string \<times> string list) list" where
  "STATE_DOMAINS =
     [(''NY'', [''health.ny.gov'', ''nyc.gov'', ''dep.nyc.gov'']),
      (''MI'', [''michigan.gov'', ''cityofflint.com'', ''geneseecountymi.gov'']),
      (''MS'', [''msdh.ms.gov'', ''jacksonms.gov'']),
      (''CA'', [''waterboards.ca.gov'', ''cdph.ca.gov'', ''ocgov.com'', ''ocsd.org'']),
      (''TX'', [''tceq.texas.gov'', ''austintexas.gov'', ''traviscountytx.gov'', ''austinwater.org'']),
      (''FL'', [''floridahealth.gov'', ''floridadep.gov'']),
      (''PA'', [''dep.pa.gov'', ''pennsylvania.gov'', ''alleghenycounty.us'', ''pittsburghpa.gov'',
               ''pgh2o.com''])]"

text \<open>A JavaScript \<open>Set\<close> keeps insertion order and ignores a value it already holds.\<close>

definition set_add :: "'a list \<Rightarrow> 'a \<Rightarrow> 'a list" where
  "set_add xs x = (if x \<in> set xs then xs else xs @ [x])"

definition set_add_all :: "'a list \<Rightarrow> 'a list \<Rightarrow> 'a list" where
  "set_add_all xs ys = foldl set_add xs ys"

text \<open>\<open>/\b([A-Z]{2})\b/\<close>: the first two capital letters standing alone as a word, scanning
  left to right; \<open>prev\<close> is the character before the position, if any.\<close>

fun match_state_code :: "char option \<Rightarrow> string \<Rightarrow> string option" where
  "match_state_code prev (a # b # rest) =
     (if is_upper a \<and> is_upper b
         \<and> (case prev of None \<Rightarrow> True | Some p \<Rightarrow> \<not> is_word p)
         \<and> (case rest of [] \<Rightarrow> True | n # _ \<Rightarrow> \<not> is_word n)
      then Some [a, b]
      else match_state_code (Some a) (b # rest))"
| "match_state_code prev _ = None"

definition state_names :: "(string \<times> string) list" where
  "state_names =
     [(''new york'', ''NY''), (''michigan'', ''MI''), (''mississippi'', ''MS''),
      (''california'', ''CA''), (''texas'', ''TX''), (''florida'', ''FL'')]"

definition inferStateCode :: "string \<Rightarrow> string option" where
  "inferStateCode location =
     (case match_state_code None location of
        Some m \<Rightarrow> Some m
      | None \<Rightarrow>
          (case filter (\<lambda>(k, v). includes_str (norm_str location) k) state_names of
             [] \<Rightarrow> None
           | (k, v) # _ \<Rightarrow> Some v))"

text \<open>\<open>/(^|\b)nyc(\b|$)/\<close>: the word \<open>nyc\<close> with no word character on either side.\<close>

fun match_nyc_word :: "char option \<Rightarrow> string \<Rightarrow> bool" where
  "match_nyc_word prev [] = False"
| "match_nyc_word prev (c # cs) =
     ((startsWith (c # cs) ''nyc''
         \<and> (case prev of None \<Rightarrow> True | Some p \<Rightarrow> \<not> is_word p)
         \<and> (case drop 3 (c # cs) of [] \<Rightarrow> True | n # _ \<Rightarrow> \<not> is_word n))
      \<or> match_nyc_word (Some c) cs)"

definition deriveLocalDomains :: "string \<Rightarrow> string list" where
  "deriveLocalDomains location =
     (let st = inferStateCode location;
          l0 = (case st of None \<Rightarrow> []
                | Some s \<Rightarrow> (case map_of STATE_DOMAINS s of None \<Rightarrow> []
                             | Some ds \<Rightarrow> set_add_all [] ds));
          L = norm_str location;
          l1 = (if match_nyc_word None L \<or> includes_str L ''new york city'' \<or> includes_str L ''manhattan''
                   \<or> includes_str L ''brooklyn'' \<or> includes_str L ''queens'' \<or> includes_str L ''bronx''
                   \<or> includes_str L ''staten island''
                then set_add_all l0 [''nyc.gov'', ''dep.nyc.gov''] else l0);
          l2 = (if includes_str L ''flint''
                then set_add_all l1 [''cityofflint.com'', ''michigan.gov''] else l1);
          l3 = (if includes_str L ''jackson'' \<and> (st = Some ''MS'' \<or> includes_str L ''mississippi'')
                then set_add_all l2 [''jacksonms.gov'', ''msdh.ms.gov''] else l2);
          l4 = (if includes_str L ''travis county'' \<or> includes_str L ''austin''
                then set_add_all l3 [''traviscountytx.gov'', ''austintexas.gov'', ''tceq.texas.gov'',
                                     ''austinwater.org'']
                else l3);
          l5 = (if includes_str L ''pittsburgh'' \<or> includes_str L ''allegheny''
                then set_add_all l4 [''pgh2o.com'', ''alleghenycounty.us'', ''dep.pa.gov'',
                                     ''pittsburghpa.gov'']
                else l4)
      in l5)"

section \<open>The runtime the retriever runs on\<close>

text \<open>
  The retriever calls the platform's URL parser, \<open>fetch\<close>, \<open>Date\<close>, and the libraries
  cheerio, pdfjs and chrono. Their code is not part of the repository, so each is a field of
  a \<open>runtime\<close> record that the functions below take as their first argument. A call that
  throws, or a promise that rejects, is the value \<open>None\<close>.
\<close>

datatype error =
    FetchRejected
  | FetchStatus nat
  | BodyRejected
  | PdfLoadFailed
  | PdfPageFailed nat
  | InvalidDate
  | SearchRejected

datatype tier = federal | state | local_tier | other

text \<open>What \<open>tierFor\<close> returns at run time: one of the four tiers or, when the host name is
  the name of a property that the table object inherits from \<open>Object.prototype\<close>, that
  property (a function, or the prototype object itself), which is none of the four tiers.\<close>

datatype tier_value = Tier tier | Inherited string

record RetrievedDoc =
  d_url :: string
  d_title :: string
  d_publisher :: "string option"
  d_publishedAt :: "string option"
  d_snippet :: "string option"
  d_text :: "string option"
  d_contentType :: "string option"
  d_score :: "int option"
  d_tier :: "tier_value option"

record http_response =
  status :: nat
  content_type :: "string option"
  last_modified :: "string option"
  body :: "string option"

text \<open>What the retriever reads of a parsed HTML page: the text of the first \<open>title\<close>, of
  \<open>main\<close>, \<open>article\<close> and \<open>body\<close>, the \<open>content\<close> of three \<open>meta\<close> elements, the
  \<open>datetime\<close> attribute of \<open>time\<close> and the text of the first \<open>time\<close>.\<close>

record html_page =
  title_text :: string
  main_text :: string
  article_text :: string
  body_text :: string
  meta_date :: "string option"
  meta_last_modified :: "string option"
  meta_published_time :: "string option"
  time_datetime :: "string option"
  time_text :: string

text \<open>An item of a PDF page's text content either has a \<open>str\<close> property or has not; in the
  second case the code reads its \<open>text\<close> property, which may be absent.\<close>

datatype pdf_item = StrItem string | OtherItem "string option"

type_synonym pdf_page = "pdf_item list option"

datatype search_outcome = SearchThrows | SearchNotOk nat | SearchResults "string list"

record runtime =
  url_hostname :: "string \<Rightarrow> string option"
  http_get :: "string \<Rightarrow> http_response option"
  cheerio_load :: "string \<Rightarrow> html_page"
  pdf_getDocument :: "string \<Rightarrow> pdf_page list option"
  chrono_parseDate :: "string \<Rightarrow> int option"
  date_getTime :: "string \<Rightarrow> int option"
  date_toISOString :: "int \<Rightarrow> string"
  tavily_post :: "string \<Rightarrow> string list \<Rightarrow> search_outcome"

text \<open>The environment variables the retriever reads (the debug flag only switches logging
  on and is left out).\<close>

record env =
  RETRIEVER_STRICT_LOCAL_var :: "string option"
  SEARCH_PROVIDER_var :: "string option"
  TAVILY_API_KEY_var :: "string option"

definition RETRIEVER_STRICT_LOCAL :: "env \<Rightarrow> bool" where
  "RETRIEVER_STRICT_LOCAL e \<longleftrightarrow> RETRIEVER_STRICT_LOCAL_var e \<noteq> Some ''0''"

definition truthy :: "string option \<Rightarrow> bool" where
  \<comment> \<open>a string-or-undefined value in a condition: absent and empty are false\<close>
  "truthy v \<longleftrightarrow> (case v of None \<Rightarrow> False | Some s \<Rightarrow> s \<noteq> [])"

definition or_empty :: "string option \<Rightarrow> string" where
  \<comment> \<open>\<open>v || ''\<close>\<close>
  "or_empty v = (case v of None \<Rightarrow> [] | Some s \<Rightarrow> s)"

section \<open>Hosts, allow-lists and tiers\<close>

definition host :: "runtime \<Rightarrow> string \<Rightarrow> string" where
  "host rt href = (case url_hostname rt href of None \<Rightarrow> [] | Some h \<Rightarrow> toLowerCase h)"

definition hostMatchesAllowed :: "runtime \<Rightarrow> string \<Rightarrow> string list \<Rightarrow> bool" where
  "hostMatchesAllowed rt href allowed =
     (let h = host rt href
      in if h = [] then False
         else list_ex (\<lambda>d. h = d \<or> endsWith h (''.'' @ d)) allowed)"

definition strongLocationMatch :: "string \<Rightarrow> string option \<Rightarrow> string \<Rightarrow> bool" where
  "strongLocationMatch docTitle docText loc =
     (let want = set_add_all [] (tokens loc);
          hay = toLowerCase (docTitle @ '' '' @ or_empty docText);
          hits = length (filter (\<lambda>t. length t \<ge> 3 \<and> includes_str hay t) want)
      in hits \<ge> min 2 (max 1 (length want div 2)))"

definition DOMAIN_TIERS :: "(string \<times> tier) list" where
  "DOMAIN_TIERS = [(''epa.gov'', federal), (''cdc.gov'', federal), (''who.int'', federal)]"

text \<open>The properties of \<open>Object.prototype\<close>, which every object literal inherits; none of
  them is \<open>null\<close> or \<open>undefined\<close>.\<close>

definition Object_prototype_keys :: "string list" where
  "Object_prototype_keys =
     [''constructor'', ''__defineGetter__'', ''__defineSetter__'', ''hasOwnProperty'',
      ''__lookupGetter__'', ''__lookupSetter__'', ''isPrototypeOf'', ''propertyIsEnumerable'',
      ''toString'', ''valueOf'', ''__proto__'', ''toLocaleString'']"

text \<open>\<open>DOMAIN_TIERS[h]\<close>: a property read on a plain object finds the object's own keys
  first and then the inherited ones; \<open>None\<close> is \<open>undefined\<close>.\<close>

definition DOMAIN_TIERS_get :: "string \<Rightarrow> tier_value option" where
  "DOMAIN_TIERS_get h =
     (case map_of DOMAIN_TIERS h of
        Some t \<Rightarrow> Some (Tier t)
      | None \<Rightarrow> if h \<in> set Object_prototype_keys then Some (Inherited h) else None)"

definition tierFor :: "runtime \<Rightarrow> string \<Rightarrow> tier_value" where
  "tierFor rt url =
     (case url_hostname rt url of
        None \<Rightarrow> Tier other
      | Some hn \<Rightarrow>
          (let h = toLowerCase hn
           in if endsWith h ''.gov''
              then (if includes_str h ''epa.gov'' \<or> includes_str h ''cdc.gov''
                    then Tier federal else Tier state)
              else if endsWith h ''.us'' then Tier local_tier
              else (case DOMAIN_TIERS_get h of Some v \<Rightarrow> v | None \<Rightarrow> Tier other)))"

definition cleanText :: "string \<Rightarrow> string" where
  "cleanText t = trim (collapse_ws t)"

section \<open>Fetching and parsing one URL\<close>

definition fetchBuffer :: "runtime \<Rightarrow> string \<Rightarrow> error + (string \<times> string \<times> string option)" where
  "fetchBuffer rt url =
     (case http_get rt url of
        None \<Rightarrow> Inl FetchRejected
      | Some res \<Rightarrow>
          if \<not> (200 \<le> status res \<and> status res \<le> 299) then Inl (FetchStatus (status res))
          else (case body res of
                  None \<Rightarrow> Inl BodyRejected
                | Some buf \<Rightarrow>
                    Inr (buf, or_empty (content_type res),
                         if truthy (last_modified res) then last_modified res else None)))"

definition first_truthy :: "string option list \<Rightarrow> string option" where
  \<comment> \<open>\<open>[...].find(Boolean)\<close>\<close>
  "first_truthy vs = (case find truthy vs of None \<Rightarrow> None | Some v \<Rightarrow> v)"

definition extractDateFromHtml :: "runtime \<Rightarrow> html_page \<Rightarrow> string option" where
  "extractDateFromHtml rt pg =
     (let meta = first_truthy [meta_date pg, meta_last_modified pg, meta_published_time pg,
                               time_datetime pg];
          candidate = (if truthy meta then or_empty meta else time_text pg);
          parsed = (if candidate \<noteq> [] then chrono_parseDate rt candidate else None)
      in map_option (date_toISOString rt) parsed)"

definition parseHtml :: "runtime \<Rightarrow> string \<Rightarrow> string \<Rightarrow> RetrievedDoc" where
  "parseHtml rt url html =
     (let pg = cheerio_load rt html;
          title = cleanText (if title_text pg \<noteq> [] then title_text pg else ''Untitled'');
          bodyText = cleanText (if main_text pg \<noteq> [] then main_text pg
                                else if article_text pg \<noteq> [] then article_text pg
                                else body_text pg);
          publishedAt = extractDateFromHtml rt pg;
          snippet = cleanText (slice0 bodyText 400)
      in \<lparr>d_url = url, d_title = title, d_publisher = None, d_publishedAt = publishedAt,
          d_snippet = Some snippet, d_text = Some bodyText, d_contentType = Some ''text/html'',
          d_score = None, d_tier = Some (tierFor rt url)\<rparr>)"

fun item_str :: "pdf_item \<Rightarrow> string" where
  "item_str (StrItem s) = s"
| "item_str (OtherItem t) = or_empty t"

definition pageText :: "pdf_item list \<Rightarrow> string" where
  "pageText items = join '' '' (map item_str items)"

text \<open>The page loop of \<open>parsePdf\<close>: \<open>p\<close> runs from 1 to \<open>maxPages\<close>; reading a page may
  throw; the loop is left as soon as the chunks joined by a space are longer than 20000.\<close>

function extract_pages :: "pdf_page list \<Rightarrow> nat \<Rightarrow> nat \<Rightarrow> string list \<Rightarrow> error + string list" where
  "extract_pages pages maxPages p textChunks =
     (if p \<le> maxPages
      then (case pages ! (p - 1) of
              None \<Rightarrow> Inl (PdfPageFailed p)
            | Some items \<Rightarrow>
                (let textChunks' = textChunks @ [pageText items]
                 in if length (join '' '' textChunks') > 20000 then Inr textChunks'
                    else extract_pages pages maxPages (p + 1) textChunks'))
      else Inr textChunks)"
  by pat_completeness auto
termination
  by (relation "measure (\<lambda>(pages, maxPages, p, textChunks). Suc maxPages - p)") auto

declare extract_pages.simps [simp del]

definition pdf_text :: "string list \<Rightarrow> string" where
  \<comment> \<open>\<open>raw = textChunks.join('\n')\<close>, then \<open>raw.replace(/\s+/g, ' ').trim()\<close>\<close>
  "pdf_text textChunks = trim (collapse_ws (join [CHR 0x0A] textChunks))"

definition pdf_title :: "string \<Rightarrow> string" where
  \<comment> \<open>\<open>text.split('\n')[0]?.slice(0, 120) || 'PDF'\<close>\<close>
  "pdf_title text =
     (case split_nl text of
        [] \<Rightarrow> ''PDF''
      | l # _ \<Rightarrow> (if slice0 l 120 \<noteq> [] then slice0 l 120 else ''PDF''))"

definition parsePdf :: "runtime \<Rightarrow> string \<Rightarrow> string \<Rightarrow> error + RetrievedDoc" where
  "parsePdf rt url buf =
     (case pdf_getDocument rt buf of
        None \<Rightarrow> Inl PdfLoadFailed
      | Some pages \<Rightarrow>
          (let maxPages = min (length pages) 12
           in case extract_pages pages maxPages 1 [] of
                Inl e \<Rightarrow> Inl e
              | Inr textChunks \<Rightarrow>
                  (let text = pdf_text textChunks;
                       title = pdf_title text;
                       parsed = chrono_parseDate rt (slice0 text 3000);
                       publishedAt = map_option (date_toISOString rt) parsed;
                       snippet = slice0 text 400
                   in Inr \<lparr>d_url = url, d_title = title, d_publisher = None,
                           d_publishedAt = publishedAt, d_snippet = Some snippet,
                           d_text = Some text, d_contentType = Some ''application/pdf'',
                           d_score = None, d_tier = Some (tierFor rt url)\<rparr>)))"

text \<open>\<open>if (!doc.publishedAt && lastMod) doc.publishedAt = new Date(lastMod).toISOString()\<close>;
  \<open>toISOString\<close> throws a \<open>RangeError\<close> on an invalid date.\<close>

definition backfill :: "runtime \<Rightarrow> RetrievedDoc \<Rightarrow> string option \<Rightarrow> error + RetrievedDoc" where
  "backfill rt doc lastMod =
     (if \<not> truthy (d_publishedAt doc) \<and> truthy lastMod
      then (case date_getTime rt (or_empty lastMod) of
              None \<Rightarrow> Inl InvalidDate
            | Some t \<Rightarrow> Inr (doc\<lparr>d_publishedAt := Some (date_toISOString rt t)\<rparr>))
      else Inr doc)"

text \<open>The body of the \<open>try\<close> block of \<open>fetchAndParse\<close>: \<open>Inl\<close> is an exception thrown in it,
  \<open>Inr None\<close> is \<open>return null\<close>.\<close>

definition fetchAndParse_try :: "runtime \<Rightarrow> string \<Rightarrow> error + RetrievedDoc option" where
  "fetchAndParse_try rt url =
     (case fetchBuffer rt url of
        Inl e \<Rightarrow> Inl e
      | Inr (buf, ct, lastMod) \<Rightarrow>
          if includes_str ct ''pdf''
          then (case parsePdf rt url buf of
                  Inl e \<Rightarrow> Inl e
                | Inr doc \<Rightarrow> map_sum id Some (backfill rt doc lastMod))
          else if includes_str ct ''html'' \<or> includes_str ct ''text''
          then map_sum id Some (backfill rt (parseHtml rt url buf) lastMod)
          else Inr None)"

definition fetchAndParse :: "runtime \<Rightarrow> string \<Rightarrow> RetrievedDoc option" where
  "fetchAndParse rt url = (case fetchAndParse_try rt url of Inl e \<Rightarrow> None | Inr r \<Rightarrow> r)"

section \<open>Seeds and the optional search\<close>

definition curatedSeeds :: "string \<Rightarrow> string list" where
  "curatedSeeds location =
     (let locals = deriveLocalDomains location;
          has = (\<lambda>d. list_ex (\<lambda>h. h = d \<or> endsWith h (''.'' @ d)) locals)
      in [''https://www.epa.gov/ccr'',
          ''https://www.cdc.gov/healthywater/emergency/drinking/drinking-water-advisories.html'']
         @ (if has ''nyc.gov'' \<or> has ''dep.nyc.gov''
            then [''https://www.nyc.gov/site/dep/water/drinking-water-quality-reports.page''] else [])
         @ (if has ''michigan.gov'' then [''https://www.michigan.gov/egle''] else [])
         @ (if has ''jacksonms.gov'' then [''https://www.jacksonms.gov/''] else [])
         @ (if has ''tceq.texas.gov'' then [''https://www.tceq.texas.gov/drinkingwater''] else [])
         @ (if has ''austintexas.gov'' \<or> has ''austinwater.org''
            then [''https://www.austintexas.gov/department/water''] else [])
         @ (if has ''pgh2o.com'' then [''https://www.pgh2o.com/your-water/water-quality''] else [])
         @ (if has ''alleghenycounty.us''
            then [''https://www.alleghenycounty.us/Health-Department''] else [])
         @ (if has ''dep.pa.gov''
            then [''https://www.dep.pa.gov/Citizens/My-Water/Pages/default.aspx''] else []))"

text \<open>\<open>tavilySearch\<close> has no \<open>try\<close>: a rejected request (or a body that is not JSON) is thrown
  to the caller; a response that is not ok gives no results.\<close>

definition tavilySearch :: "runtime \<Rightarrow> env \<Rightarrow> string \<Rightarrow> string list \<Rightarrow> error + string list" where
  "tavilySearch rt e query includeDomains =
     (if \<not> truthy (TAVILY_API_KEY_var e) then Inr []
      else (case tavily_post rt query includeDomains of
              SearchThrows \<Rightarrow> Inl SearchRejected
            | SearchNotOk st \<Rightarrow> Inr []
            | SearchResults urls \<Rightarrow> Inr urls))"

definition search_enabled :: "env \<Rightarrow> bool" where
  \<comment> \<open>\<open>process.env.SEARCH_PROVIDER === 'tavily' && process.env.TAVILY_API_KEY\<close>\<close>
  "search_enabled e \<longleftrightarrow> SEARCH_PROVIDER_var e = Some ''tavily'' \<and> truthy (TAVILY_API_KEY_var e)"

text \<open>The loop over the queries: each search runs in turn and its URLs are added to the
  seed set; the first search that throws ends the loop with that exception.\<close>

fun search_seeds :: "runtime \<Rightarrow> env \<Rightarrow> string list \<Rightarrow> string list \<Rightarrow> string list \<Rightarrow> error + string list" where
  "search_seeds rt e allow [] seeds = Inr seeds"
| "search_seeds rt e allow (q # qs) seeds =
     (case tavilySearch rt e q allow of
        Inl err \<Rightarrow> Inl err
      | Inr results \<Rightarrow> search_seeds rt e allow qs (set_add_all seeds results))"

section \<open>Scoring\<close>

fun any_suffix :: "(string \<Rightarrow> bool) \<Rightarrow> string \<Rightarrow> bool" where
  "any_suffix P [] = P []"
| "any_suffix P (c # cs) = (P (c # cs) \<or> any_suffix P cs)"

definition do_not_drink_at :: "string \<Rightarrow> bool" where
  \<comment> \<open>\<open>do\s*not\s*drink\<close> matched at the start of a lower-cased string\<close>
  "do_not_drink_at u \<longleftrightarrow>
     startsWith u ''do''
     \<and> startsWith (dropWhile is_space (drop 2 u)) ''not''
     \<and> startsWith (dropWhile is_space (drop 3 (dropWhile is_space (drop 2 u)))) ''drink''"

definition safety_pattern :: "string \<Rightarrow> bool" where
  \<comment> \<open>\<open>/(boil|do\s*not\s*drink|advisory|notice)/i.test(s)\<close>\<close>
  "safety_pattern s \<longleftrightarrow>
     (let l = toLowerCase s
      in includes_str l ''boil'' \<or> any_suffix do_not_drink_at l
         \<or> includes_str l ''advisory'' \<or> includes_str l ''notice'')"

definition jargon_pattern :: "string \<Rightarrow> bool" where
  \<comment> \<open>\<open>/(pws(a)?|pgh2o|austin water|dep|deq|ddw)/i.test(s)\<close>\<close>
  "jargon_pattern s \<longleftrightarrow>
     (let l = toLowerCase s
      in includes_str l ''pws'' \<or> includes_str l ''pgh2o'' \<or> includes_str l ''austin water''
         \<or> includes_str l ''dep'' \<or> includes_str l ''deq'' \<or> includes_str l ''ddw'')"

definition ageDays :: "runtime \<Rightarrow> int \<Rightarrow> string \<Rightarrow> real option" where
  \<comment> \<open>\<open>(Date.now() - new Date(publishedAt).getTime()) / 864e5\<close>; \<open>None\<close> is \<open>NaN\<close>\<close>
  "ageDays rt now publishedAt =
     map_option (\<lambda>t. real_of_int (now - t) / 86400000) (date_getTime rt publishedAt)"

text \<open>The local function \<open>score\<close> of \<open>fetchAuthoritative\<close>; it closes over \<open>baseAllow\<close>,
  \<open>localAllow\<close> and \<open>location\<close>, and \<open>now\<close> is what \<open>Date.now()\<close> returns in this call.\<close>

definition score :: "runtime \<Rightarrow> string list \<Rightarrow> string list \<Rightarrow> string \<Rightarrow> int \<Rightarrow> RetrievedDoc \<Rightarrow> int" where
  "score rt baseAllow localAllow location now d =
     (let s0 = 0;
          s1 = (if hostMatchesAllowed rt (d_url d) baseAllow then s0 + 3 else s0);
          s2 = (if hostMatchesAllowed rt (d_url d) localAllow then s1 + 4 else s1);
          s3 = (if strongLocationMatch (d_title d) (d_text d) location then s2 + 2 else s2);
          s4 = (if safety_pattern (or_empty (d_text d) @ '' '' @ d_title d) then s3 + 2 else s3);
          s5 = (if jargon_pattern (or_empty (d_text d) @ '' '' @ d_title d) then s4 + 1 else s4);
          s6 = (if truthy (d_publishedAt d)
                then (case ageDays rt now (or_empty (d_publishedAt d)) of
                        None \<Rightarrow> s5
                      | Some a \<Rightarrow> if a < 60 then s5 + 2 else if a < 365 then s5 + 1 else s5)
                else s5)
      in s6)"

section \<open>The retrieval pipeline\<close>

definition baseAllow :: "string list" where
  "baseAllow = [''epa.gov'', ''cdc.gov'']"

definition allow_list :: "string \<Rightarrow> string list" where
  \<comment> \<open>\<open>Array.from(new Set([...baseAllow, ...localAllow]))\<close>\<close>
  "allow_list location = set_add_all [] (baseAllow @ deriveLocalDomains location)"

definition queries :: "string \<Rightarrow> string \<Rightarrow> string list" where
  "queries location question =
     [trim (question @ '' '' @ location),
      location @ '' Consumer Confidence Report'',
      location @ '' drinking water report'',
      location @ '' boil water notice'']"

definition seeds_of :: "runtime \<Rightarrow> env \<Rightarrow> string \<Rightarrow> string \<Rightarrow> error + string list" where
  "seeds_of rt e location question =
     (let seeds = set_add_all [] (curatedSeeds location)
      in if search_enabled e
         then search_seeds rt e (allow_list location) (queries location question) seeds
         else Inr seeds)"

definition rawDocs :: "runtime \<Rightarrow> string list \<Rightarrow> RetrievedDoc list" where
  \<comment> \<open>\<open>for (const u of seeds) { const doc = await fetchAndParse(u); if (doc) rawDocs.push(doc); }\<close>\<close>
  "rawDocs rt seeds = List.map_filter (fetchAndParse rt) seeds"

text \<open>The callback of \<open>rawDocs.filter\<close>; it closes over \<open>allow\<close> and \<open>location\<close>.\<close>

definition keep :: "runtime \<Rightarrow> env \<Rightarrow> string list \<Rightarrow> string \<Rightarrow> RetrievedDoc \<Rightarrow> bool" where
  "keep rt e allow location d =
     (let okHost = hostMatchesAllowed rt (d_url d) allow;
          okLoc = strongLocationMatch (d_title d) (d_text d) location
      in okHost \<or> (\<not> RETRIEVER_STRICT_LOCAL e \<and> okLoc))"

definition filtered :: "runtime \<Rightarrow> env \<Rightarrow> string list \<Rightarrow> string \<Rightarrow> RetrievedDoc list \<Rightarrow> RetrievedDoc list" where
  "filtered rt e allow location docs = filter (keep rt e allow location) docs"

text \<open>\<open>filtered.forEach(d => d.score = score(d))\<close>: the documents are scored in list order;
  \<open>clock i\<close> is the value of \<open>Date.now()\<close> while the document at index \<open>i\<close> is scored.\<close>

definition scored :: "runtime \<Rightarrow> string \<Rightarrow> (nat \<Rightarrow> int) \<Rightarrow> RetrievedDoc list \<Rightarrow> RetrievedDoc list" where
  "scored rt location clock docs =
     map (\<lambda>(i, d). d\<lparr>d_score :=
                       Some (score rt baseAllow (deriveLocalDomains location) location (clock i) d)\<rparr>)
         (enumerate 0 docs)"

definition score_or0 :: "RetrievedDoc \<Rightarrow> int" where
  \<comment> \<open>\<open>d.score || 0\<close>\<close>
  "score_or0 d = (case d_score d of None \<Rightarrow> 0 | Some s \<Rightarrow> s)"

definition sort_desc :: "RetrievedDoc list \<Rightarrow> RetrievedDoc list" where
  \<comment> \<open>\<open>sort((a, b) => (b.score || 0) - (a.score || 0))\<close>, a stable sort\<close>
  "sort_desc docs = sort_key (\<lambda>d. - score_or0 d) docs"

definition rank :: "runtime \<Rightarrow> env \<Rightarrow> string \<Rightarrow> (nat \<Rightarrow> int) \<Rightarrow> RetrievedDoc list \<Rightarrow> RetrievedDoc list" where
  "rank rt e location clock docs =
     take 6 (sort_desc (scored rt location clock (filtered rt e (allow_list location) location docs)))"

definition fetchAuthoritative ::
  "runtime \<Rightarrow> env \<Rightarrow> (nat \<Rightarrow> int) \<Rightarrow> string \<Rightarrow> string \<Rightarrow> error + RetrievedDoc list" where
  "fetchAuthoritative rt e clock location question =
     (case seeds_of rt e location question of
        Inl err \<Rightarrow> Inl err
      | Inr seeds \<Rightarrow> Inr (rank rt e location clock (rawDocs rt seeds)))"

section \<open>A sample runtime\<close>

text \<open>A small concrete runtime on which the model can be evaluated: a URL parser for
  \<open>http://host/path\<close> and \<open>https://host/path\<close>, four reachable URLs, one PDF of two pages,
  and a search service whose request is rejected.\<close>

definition sample_hostname :: "string \<Rightarrow> string option" where
  "sample_hostname url =
     (let rest = (if startsWith url ''https://'' then Some (drop 8 url)
                  else if startsWith url ''http://'' then Some (drop 7 url) else None)
      in case rest of
           None \<Rightarrow> None
         | Some r \<Rightarrow> (let h = takeWhile (\<lambda>c. c \<noteq> CHR ''/'') r in if h = [] then None else Some h))"

definition sample_page :: html_page where
  "sample_page =
     \<lparr>title_text = ''Austin Water Quality Report 2024'', main_text = [], article_text = [],
      body_text = ''Austin,  Texas:  drinking water meets all standards. No boil water notice.'',
      meta_date = None, meta_last_modified = None, meta_published_time = None,
      time_datetime = None, time_text = []\<rparr>"

definition sample_pdf :: "pdf_page list" where
  "sample_pdf =
     [Some [StrItem ''Consumer  Confidence'', OtherItem None, StrItem ''Report''],
      Some [StrItem ''Your water'', StrItem ''system'']]"

definition sample_http :: "string \<Rightarrow> http_response option" where
  "sample_http url =
     (if url = ''https://www.austintexas.gov/department/water''
      then Some \<lparr>status = 200, content_type = Some ''text/plain; charset=utf-8'',
                 last_modified = Some ''Tue, 01 Oct 2024 00:00:00 GMT'', body = Some ''<html>''\<rparr>
      else if url = ''https://www.epa.gov/ccr''
      then Some \<lparr>status = 200, content_type = Some ''text/html'',
                 last_modified = None, body = Some ''<html>''\<rparr>
      else if url = ''https://www.epa.gov/ccr/report.pdf''
      then Some \<lparr>status = 200, content_type = Some ''application/pdf'',
                 last_modified = None, body = Some ''%PDF''\<rparr>
      else if url = ''https://www.tceq.texas.gov/drinkingwater''
      then Some \<lparr>status = 200, content_type = Some ''image/png'',
                 last_modified = None, body = Some ''PNG''\<rparr>
      else if url = ''https://www.cdc.gov/healthywater/emergency/drinking/drinking-water-advisories.html''
      then Some \<lparr>status = 404, content_type = Some ''text/html'',
                 last_modified = None, body = Some []\<rparr>
      else None)"

definition sample_rt :: runtime where
  "sample_rt =
     \<lparr>url_hostname = sample_hostname,
      http_get = sample_http,
      cheerio_load = (\<lambda>html. sample_page),
      pdf_getDocument = (\<lambda>buf. Some sample_pdf),
      chrono_parseDate = (\<lambda>s. None),
      date_getTime = (\<lambda>s. if s = ''Tue, 01 Oct 2024 00:00:00 GMT'' \<or> s = ''2024-10-01T00:00:00.000Z''
                           then Some 1727740800000
                           else if s = ''2023-01-01T00:00:00.000Z'' then Some 1672531200000
                           else None),
      date_toISOString = (\<lambda>t. if t = 1727740800000 then ''2024-10-01T00:00:00.000Z'' else []),
      tavily_post = (\<lambda>q ds. SearchThrows)\<rparr>"

definition env_default :: env where
  "env_default =
     \<lparr>RETRIEVER_STRICT_LOCAL_var = None, SEARCH_PROVIDER_var = None, TAVILY_API_KEY_var = None\<rparr>"

definition env_search :: env where
  "env_search =
     \<lparr>RETRIEVER_STRICT_LOCAL_var = None, SEARCH_PROVIDER_var = Some ''tavily'',
      TAVILY_API_KEY_var = Some ''key''\<rparr>"

definition env_lenient :: env where
  "env_lenient =
     \<lparr>RETRIEVER_STRICT_LOCAL_var = Some ''0'', SEARCH_PROVIDER_var = None,
      TAVILY_API_KEY_var = None\<rparr>"

definition sample_doc_local :: RetrievedDoc where
  "sample_doc_local =
     \<lparr>d_url = ''https://www.austintexas.gov/department/water'',
      d_title = ''Austin Water Quality Report 2024'', d_publisher = None,
      d_publishedAt = Some ''2024-10-01T00:00:00.000Z'', d_snippet = None,
      d_text = Some ''Austin, Texas: drinking water meets all standards.'',
      d_contentType = Some ''text/html'', d_score = None, d_tier = Some (Tier state)\<rparr>"

definition sample_doc_blog :: RetrievedDoc where
  "sample_doc_blog =
     \<lparr>d_url = ''https://waterblog.example.com/austin'',
      d_title = ''Austin TX tap water review'', d_publisher = None,
      d_publishedAt = None, d_snippet = None,
      d_text = Some ''What we think of the water in Austin.'',
      d_contentType = Some ''text/html'', d_score = None, d_tier = Some (Tier other)\<rparr>"

section \<open>The rules as the specification words them\<close>

text \<open>The tier rule of the specification, on a lower-cased host name: \<open>.gov\<close> hosts are
  federal when they contain \<open>epa.gov\<close> or \<open>cdc.gov\<close> and state otherwise, \<open>.us\<close> hosts
  are local, and any other host is looked up in a table that maps \<open>who.int\<close> to federal,
  with \<open>other\<close> as the default.\<close>

definition spec_tier :: "string \<Rightarrow> tier" where
  "spec_tier h =
     (if endsWith h ''.gov''
      then (if includes_str h ''epa.gov'' \<or> includes_str h ''cdc.gov'' then federal else state)
      else if endsWith h ''.us'' then local_tier
      else (case map_of [(''who.int'', federal)] h of Some t \<Rightarrow> t | None \<Rightarrow> other))"

text \<open>The recency term of the specification, with the age in milliseconds: 2 under 60 days,
  1 under 365 days, 0 otherwise, and 0 when there is no published date or it is not a date.\<close>

definition spec_recency :: "runtime \<Rightarrow> int \<Rightarrow> string option \<Rightarrow> int" where
  "spec_recency rt now publishedAt =
     (case publishedAt of
        None \<Rightarrow> 0
      | Some p \<Rightarrow>
          (if p = [] then 0
           else (case date_getTime rt p of
                   None \<Rightarrow> 0
                 | Some t \<Rightarrow> if now - t < 60 * 86400000 then 2
                             else if now - t < 365 * 86400000 then 1 else 0)))"

text \<open>The strong-location-match test as the specification words it: the tokens of the
  location are its alphanumeric tokens of length at least 3, the hits are those of them that
  occur in the lower-cased concatenation of title and text, and \<open>token_count\<close> is the number
  of those tokens.\<close>

definition spec_strongLocationMatch :: "string \<Rightarrow> string option \<Rightarrow> string \<Rightarrow> bool" where
  "spec_strongLocationMatch docTitle docText loc =
     (let toks = filter (\<lambda>t. length t \<ge> 3) (tokens loc);
          hay = toLowerCase (docTitle @ or_empty docText);
          hits = length (filter (\<lambda>t. includes_str hay t) toks)
      in hits \<ge> min 2 (max 1 (length toks div 2)))"






section \<open>Insertion-ordered sets, seeds and the search loop\<close>

lemma set_set_add: "set (set_add xs x) = insert x (set xs)"
  by (auto simp: set_add_def)

lemma set_foldl_set_add: "set (foldl set_add xs ys) = set xs \<union> set ys"
  by (induction ys arbitrary: xs) (auto simp: set_set_add)

lemma set_set_add_all: "set (set_add_all xs ys) = set xs \<union> set ys"
  by (simp add: set_add_all_def set_foldl_set_add)

lemma distinct_set_add: "distinct xs \<Longrightarrow> distinct (set_add xs x)"
  by (simp add: set_add_def)

lemma distinct_foldl_set_add: "distinct xs \<Longrightarrow> distinct (foldl set_add xs ys)"
  by (induction ys arbitrary: xs) (simp_all add: distinct_set_add)

lemma distinct_set_add_all: "distinct xs \<Longrightarrow> distinct (set_add_all xs ys)"
  by (simp add: set_add_all_def distinct_foldl_set_add)




lemma seeds_of_no_search:
  "\<not> search_enabled e \<Longrightarrow>
     seeds_of rt e location question = Inr (set_add_all [] (curatedSeeds location))"
  by (simp add: seeds_of_def)






section \<open>The cap on the number of returned documents\<close>



section \<open>The relevance filter\<close>

lemma endsWith_iff: "endsWith s t \<longleftrightarrow> (\<exists>p. s = p @ t)"
proof
  assume "endsWith s t"
  then have "s = take (length s - length t) s @ t"
    by (metis append_take_drop_id endsWith_def)
  then show "\<exists>p. s = p @ t" ..
next
  assume "\<exists>p. s = p @ t"
  then show "endsWith s t" by (auto simp: endsWith_def)
qed

lemma hostMatchesAllowed_iff:
  "hostMatchesAllowed rt href allowed \<longleftrightarrow>
     (\<exists>hn dmn. url_hostname rt href = Some hn \<and> toLowerCase hn \<noteq> [] \<and> dmn \<in> set allowed
        \<and> (toLowerCase hn = dmn \<or> (\<exists>pre. toLowerCase hn = pre @ ''.'' @ dmn)))"
  by (auto simp: hostMatchesAllowed_def host_def Let_def list_ex_iff endsWith_iff
      split: option.splits)

lemma keep_score_update [simp]:
  "keep rt e allow location (d\<lparr>d_score := x\<rparr>) = keep rt e allow location d"
  by (simp add: keep_def)

lemma in_scored:
  "x \<in> set (scored rt location clock docs) \<Longrightarrow>
     \<exists>i < length docs.
       x = (docs ! i)\<lparr>d_score :=
             Some (score rt baseAllow (deriveLocalDomains location) location (clock i) (docs ! i))\<rparr>"
  by (auto simp: scored_def in_set_enumerate_eq)

lemma in_rank:
  "x \<in> set (rank rt e location clock docs) \<Longrightarrow>
     \<exists>d i. d \<in> set docs \<and> keep rt e (allow_list location) location d
       \<and> x = d\<lparr>d_score :=
                 Some (score rt baseAllow (deriveLocalDomains location) location (clock i) d)\<rparr>"
proof -
  let ?f = "filtered rt e (allow_list location) location docs"
  assume "x \<in> set (rank rt e location clock docs)"
  then have "x \<in> set (scored rt location clock ?f)"
    by (auto simp: rank_def sort_desc_def dest: in_set_takeD)
  from in_scored [OF this] obtain i where i: "i < length ?f"
    and x: "x = (?f ! i)\<lparr>d_score :=
             Some (score rt baseAllow (deriveLocalDomains location) location (clock i) (?f ! i))\<rparr>"
    by blast
  from i have "?f ! i \<in> set ?f" by simp
  then have "?f ! i \<in> set docs \<and> keep rt e (allow_list location) location (?f ! i)"
    by (simp add: filtered_def)
  with x show ?thesis by blast
qed

lemma in_rawDocs:
  "d \<in> set (rawDocs rt seeds) \<Longrightarrow> \<exists>u \<in> set seeds. fetchAndParse rt u = Some d"
  by (auto simp: rawDocs_def List.map_filter_def)

lemma fetchAuthoritative_Inr:
  "fetchAuthoritative rt e clock location question = Inr ds \<Longrightarrow>
     \<exists>seeds. seeds_of rt e location question = Inr seeds
        \<and> ds = rank rt e location clock (rawDocs rt seeds)"
  by (auto simp: fetchAuthoritative_def split: sum.splits)

lemma filtered_append:
  "filtered rt e allow location (xs @ ys)
     = filtered rt e allow location xs @ filtered rt e allow location ys"
  by (simp add: filtered_def)

text \<open>
  Claim C2. With strict-local mode on, which is the default (the variable unset), every
  document that survives the filter has a URL whose host name is an allow-listed domain or
  ends in a dot followed by one; with strict mode off, every survivor passes the allow-list
  host test or the strong-location-match test. The filter keeps the documents in their order
  and decides each one on its own, and the same holds of every document of the final output.
\<close>

theorem filter_soundness:
  "(RETRIEVER_STRICT_LOCAL_var e = None \<longrightarrow> RETRIEVER_STRICT_LOCAL e)
   \<and> (\<forall>d \<in> set (filtered rt e allow location docs).
         d \<in> set docs
         \<and> (if RETRIEVER_STRICT_LOCAL e
            then (\<exists>hn dmn. url_hostname rt (d_url d) = Some hn \<and> dmn \<in> set allow
                    \<and> (toLowerCase hn = dmn \<or> (\<exists>pre. toLowerCase hn = pre @ ''.'' @ dmn)))
            else hostMatchesAllowed rt (d_url d) allow
                 \<or> strongLocationMatch (d_title d) (d_text d) location))
   \<and> subseq (filtered rt e allow location docs) docs
   \<and> (\<forall>xs ys. docs = xs @ ys \<longrightarrow>
         filtered rt e allow location docs
           = filtered rt e allow location xs @ filtered rt e allow location ys)
   \<and> (\<forall>ds. fetchAuthoritative rt e clock location question = Inr ds \<longrightarrow>
         (\<forall>d \<in> set ds.
            hostMatchesAllowed rt (d_url d) (allow_list location)
            \<or> (\<not> RETRIEVER_STRICT_LOCAL e
                \<and> strongLocationMatch (d_title d) (d_text d) location)))"
proof (intro conjI)
  show "RETRIEVER_STRICT_LOCAL_var e = None \<longrightarrow> RETRIEVER_STRICT_LOCAL e"
    by (simp add: RETRIEVER_STRICT_LOCAL_def)
next
  show "\<forall>d \<in> set (filtered rt e allow location docs).
         d \<in> set docs
         \<and> (if RETRIEVER_STRICT_LOCAL e
            then (\<exists>hn dmn. url_hostname rt (d_url d) = Some hn \<and> dmn \<in> set allow
                    \<and> (toLowerCase hn = dmn \<or> (\<exists>pre. toLowerCase hn = pre @ ''.'' @ dmn)))
            else hostMatchesAllowed rt (d_url d) allow
                 \<or> strongLocationMatch (d_title d) (d_text d) location)"
  proof
    fix d assume "d \<in> set (filtered rt e allow location docs)"
    then have mem: "d \<in> set docs" and k: "keep rt e allow location d"
      by (simp_all add: filtered_def)
    show "d \<in> set docs
         \<and> (if RETRIEVER_STRICT_LOCAL e
            then (\<exists>hn dmn. url_hostname rt (d_url d) = Some hn \<and> dmn \<in> set allow
                    \<and> (toLowerCase hn = dmn \<or> (\<exists>pre. toLowerCase hn = pre @ ''.'' @ dmn)))
            else hostMatchesAllowed rt (d_url d) allow
                 \<or> strongLocationMatch (d_title d) (d_text d) location)"
    proof (cases "RETRIEVER_STRICT_LOCAL e")
      case True
      with k have "hostMatchesAllowed rt (d_url d) allow" by (simp add: keep_def)
      then have "\<exists>hn dmn. url_hostname rt (d_url d) = Some hn \<and> dmn \<in> set allow
                    \<and> (toLowerCase hn = dmn \<or> (\<exists>pre. toLowerCase hn = pre @ ''.'' @ dmn))"
        unfolding hostMatchesAllowed_iff by blast
      with mem True show ?thesis by simp
    next
      case False
      with k mem show ?thesis by (simp add: keep_def)
    qed
  qed
next
  show "subseq (filtered rt e allow location docs) docs"
    by (simp add: filtered_def)
next
  show "\<forall>xs ys. docs = xs @ ys \<longrightarrow>
         filtered rt e allow location docs
           = filtered rt e allow location xs @ filtered rt e allow location ys"
    by (simp add: filtered_append)
next
  show "\<forall>ds. fetchAuthoritative rt e clock location question = Inr ds \<longrightarrow>
         (\<forall>d \<in> set ds.
            hostMatchesAllowed rt (d_url d) (allow_list location)
            \<or> (\<not> RETRIEVER_STRICT_LOCAL e
                \<and> strongLocationMatch (d_title d) (d_text d) location))"
  proof (intro allI impI ballI)
    fix ds d
    assume "fetchAuthoritative rt e clock location question = Inr ds" and "d \<in> set ds"
    then obtain seeds where "d \<in> set (rank rt e location clock (rawDocs rt seeds))"
      by (auto dest: fetchAuthoritative_Inr)
    from in_rank [OF this] obtain d' i where k: "keep rt e (allow_list location) location d'"
      and d: "d = d'\<lparr>d_score :=
                 Some (score rt baseAllow (deriveLocalDomains location) location (clock i) d')\<rparr>"
      by (elim exE conjE)
    from d have "d_url d = d_url d'" "d_title d = d_title d'" "d_text d = d_text d'"
      by simp_all
    with k show "hostMatchesAllowed rt (d_url d) (allow_list location)
            \<or> (\<not> RETRIEVER_STRICT_LOCAL e
                \<and> strongLocationMatch (d_title d) (d_text d) location)"
      by (simp add: keep_def)
  qed
qed


theorem filter_soundness_witness:
  "RETRIEVER_STRICT_LOCAL env_default
   \<and> filtered sample_rt env_default [''epa.gov'', ''austintexas.gov''] ''Austin, TX''
         [sample_doc_blog, sample_doc_local] = [sample_doc_local]
   \<and> (\<exists>hn dmn. url_hostname sample_rt (d_url sample_doc_local) = Some hn
          \<and> dmn \<in> set [''epa.gov'', ''austintexas.gov'']
          \<and> (toLowerCase hn = dmn \<or> (\<exists>pre. toLowerCase hn = pre @ ''.'' @ dmn)))
   \<and> subseq [sample_doc_local] [sample_doc_blog, sample_doc_local]
   \<and> \<not> RETRIEVER_STRICT_LOCAL env_lenient
   \<and> filtered sample_rt env_lenient [''epa.gov'', ''austintexas.gov''] ''Austin, TX''
         [sample_doc_blog, sample_doc_local] = [sample_doc_blog, sample_doc_local]
   \<and> (hostMatchesAllowed sample_rt (d_url sample_doc_blog) [''epa.gov'', ''austintexas.gov'']
        \<or> strongLocationMatch (d_title sample_doc_blog) (d_text sample_doc_blog) ''Austin, TX'')"
proof -
  let ?allow = "[''epa.gov'', ''austintexas.gov'']"
  let ?docs = "[sample_doc_blog, sample_doc_local]"
  note fs = filter_soundness [where rt = sample_rt and e = env_default and allow = ?allow
      and location = "''Austin, TX''" and docs = ?docs]
  have f: "filtered sample_rt env_default ?allow ''Austin, TX'' ?docs = [sample_doc_local]"
    by code_simp
  have "RETRIEVER_STRICT_LOCAL_var env_default = None"
    by (simp add: env_default_def)
  with fs have strict: "RETRIEVER_STRICT_LOCAL env_default"
    by blast
  from fs [THEN conjunct2, THEN conjunct1]
  have "\<forall>d \<in> set (filtered sample_rt env_default ?allow ''Austin, TX'' ?docs).
         d \<in> set ?docs
         \<and> (if RETRIEVER_STRICT_LOCAL env_default
            then (\<exists>hn dmn. url_hostname sample_rt (d_url d) = Some hn \<and> dmn \<in> set ?allow
                    \<and> (toLowerCase hn = dmn \<or> (\<exists>pre. toLowerCase hn = pre @ ''.'' @ dmn)))
            else hostMatchesAllowed sample_rt (d_url d) ?allow
                 \<or> strongLocationMatch (d_title d) (d_text d) ''Austin, TX'')" .
  with f strict have ex: "\<exists>hn dmn. url_hostname sample_rt (d_url sample_doc_local) = Some hn
          \<and> dmn \<in> set ?allow
          \<and> (toLowerCase hn = dmn \<or> (\<exists>pre. toLowerCase hn = pre @ ''.'' @ dmn))"
    by simp
  from fs [THEN conjunct2, THEN conjunct2, THEN conjunct1]
  have "subseq (filtered sample_rt env_default ?allow ''Austin, TX'' ?docs) ?docs" .
  with f have sub: "subseq [sample_doc_local] ?docs" by simp
  have f2: "filtered sample_rt env_lenient ?allow ''Austin, TX'' ?docs = ?docs"
    by code_simp
  have lenient: "\<not> RETRIEVER_STRICT_LOCAL env_lenient"
    by (simp add: RETRIEVER_STRICT_LOCAL_def env_lenient_def)
  from filter_soundness [where rt = sample_rt and e = env_lenient and allow = ?allow
      and location = "''Austin, TX''" and docs = ?docs, THEN conjunct2, THEN conjunct1]
    f2 lenient
  have loose: "hostMatchesAllowed sample_rt (d_url sample_doc_blog) ?allow
        \<or> strongLocationMatch (d_title sample_doc_blog) (d_text sample_doc_blog) ''Austin, TX''"
    by simp
  from strict f ex sub lenient f2 loose show ?thesis by (intro conjI)
qed

section \<open>What a fetched document carries\<close>

lemma backfill_fields:
  "backfill rt doc lastMod = Inr d \<Longrightarrow>
     d_url d = d_url doc \<and> d_tier d = d_tier doc \<and> d_contentType d = d_contentType doc
     \<and> d_title d = d_title doc \<and> d_text d = d_text doc"
  by (auto simp: backfill_def split: if_splits option.splits)

lemma parseHtml_fields:
  "d_url (parseHtml rt url html) = url"
  "d_tier (parseHtml rt url html) = Some (tierFor rt url)"
  "d_contentType (parseHtml rt url html) = Some ''text/html''"
  by (simp_all add: parseHtml_def Let_def)

lemma parsePdf_fields:
  "parsePdf rt url buf = Inr doc \<Longrightarrow>
     d_url doc = url \<and> d_tier doc = Some (tierFor rt url)
     \<and> d_contentType doc = Some ''application/pdf''"
  by (auto simp: parsePdf_def Let_def split: option.splits sum.splits)

lemma fetchBuffer_Inr:
  "fetchBuffer rt url = Inr (buf, ct, lastMod) \<Longrightarrow>
     \<exists>res. http_get rt url = Some res \<and> 200 \<le> status res \<and> status res \<le> 299
       \<and> body res = Some buf \<and> ct = or_empty (content_type res)"
  by (auto simp: fetchBuffer_def split: option.splits if_splits)

lemma fetchAndParse_Some:
  assumes "fetchAndParse rt url = Some d"
  shows "\<exists>res buf lastMod.
           http_get rt url = Some res \<and> 200 \<le> status res \<and> status res \<le> 299
           \<and> body res = Some buf
           \<and> ((includes_str (or_empty (content_type res)) ''pdf''
                \<and> (\<exists>doc. parsePdf rt url buf = Inr doc \<and> backfill rt doc lastMod = Inr d))
               \<or> (\<not> includes_str (or_empty (content_type res)) ''pdf''
                   \<and> (includes_str (or_empty (content_type res)) ''html''
                        \<or> includes_str (or_empty (content_type res)) ''text'')
                   \<and> backfill rt (parseHtml rt url buf) lastMod = Inr d))"
proof -
  from assms have t: "fetchAndParse_try rt url = Inr (Some d)"
    by (simp add: fetchAndParse_def split: sum.splits)
  then obtain buf ct lastMod where fb: "fetchBuffer rt url = Inr (buf, ct, lastMod)"
    by (cases "fetchBuffer rt url") (auto simp: fetchAndParse_try_def)
  from fetchBuffer_Inr [OF fb] obtain res where res: "http_get rt url = Some res"
    "200 \<le> status res" "status res \<le> 299" "body res = Some buf"
    "ct = or_empty (content_type res)"
    by blast
  show ?thesis
  proof (cases "includes_str ct ''pdf''")
    case True
    with t fb obtain doc where "parsePdf rt url buf = Inr doc" "backfill rt doc lastMod = Inr d"
      by (cases "parsePdf rt url buf"; cases "backfill rt (projr (parsePdf rt url buf)) lastMod")
         (auto simp: fetchAndParse_try_def)
    with res True show ?thesis by blast
  next
    case False
    with t fb have "(includes_str ct ''html'' \<or> includes_str ct ''text'')
                    \<and> backfill rt (parseHtml rt url buf) lastMod = Inr d"
      by (cases "backfill rt (parseHtml rt url buf) lastMod")
         (auto simp: fetchAndParse_try_def split: if_splits)
    with res False show ?thesis by blast
  qed
qed

lemma fetchAndParse_url_tier:
  assumes "fetchAndParse rt url = Some d"
  shows "d_url d = url \<and> d_tier d = Some (tierFor rt url)"
proof -
  from fetchAndParse_Some [OF assms] consider
    (pdf) buf lastMod doc where "parsePdf rt url buf = Inr doc" "backfill rt doc lastMod = Inr d"
  | (html) buf lastMod where "backfill rt (parseHtml rt url buf) lastMod = Inr d"
    by blast
  then show ?thesis
  proof cases
    case pdf
    then show ?thesis
      using parsePdf_fields [of rt url buf doc] backfill_fields [of rt doc lastMod d] by simp
  next
    case html
    then show ?thesis
      using backfill_fields [of rt "parseHtml rt url buf" lastMod d]
      by (simp add: parseHtml_fields)
  qed
qed

section \<open>Tiers\<close>

lemma lower_char_not_upper: "\<not> is_upper (lower_char c)"
proof -
  have lt: "(of_char c :: nat) < 256" by simp
  show ?thesis
  proof (cases "(65 \<le> (of_char c :: nat) \<and> (of_char c :: nat) \<le> 90)
               \<or> (192 \<le> (of_char c :: nat) \<and> (of_char c :: nat) \<le> 222 \<and> (of_char c :: nat) \<noteq> 215)")
    case True
    then have "lower_char c = char_of ((of_char c :: nat) + 32)"
      by (simp add: lower_char_def Let_def)
    moreover from True lt have "((of_char c :: nat) + 32) mod 256 = of_char c + 32"
      by auto
    ultimately have "(of_char (lower_char c) :: nat) = of_char c + 32"
      by simp
    with True show ?thesis by (auto simp: is_upper_def)
  next
    case False
    then have "lower_char c = c" by (auto simp: lower_char_def Let_def)
    with False show ?thesis by (auto simp: is_upper_def)
  qed
qed

lemma toLowerCase_no_upper: "c \<in> set (toLowerCase s) \<Longrightarrow> \<not> is_upper c"
  by (auto simp: toLowerCase_def lower_char_not_upper)

lemma inherited_lower_keys:
  assumes "\<forall>c \<in> set h. \<not> is_upper c"
  shows "h \<in> set Object_prototype_keys \<longleftrightarrow> h = ''constructor'' \<or> h = ''__proto__''"
proof -
  have up: "is_upper (CHR ''G'')" "is_upper (CHR ''S'')" "is_upper (CHR ''O'')"
    "is_upper (CHR ''P'')" "is_upper (CHR ''I'')" "is_upper (CHR ''L'')"
    by (simp_all add: is_upper_def)
  from assms up have
    "h \<noteq> ''__defineGetter__''" "h \<noteq> ''__defineSetter__''" "h \<noteq> ''hasOwnProperty''"
    "h \<noteq> ''__lookupGetter__''" "h \<noteq> ''__lookupSetter__''" "h \<noteq> ''isPrototypeOf''"
    "h \<noteq> ''propertyIsEnumerable''" "h \<noteq> ''toString''" "h \<noteq> ''valueOf''"
    "h \<noteq> ''toLocaleString''"
    by auto
  then show ?thesis
    by (auto simp: Object_prototype_keys_def)
qed

lemma DOMAIN_TIERS_get_lower:
  assumes "\<forall>c \<in> set h. \<not> is_upper c" and "\<not> endsWith h ''.gov''"
  shows "(case DOMAIN_TIERS_get h of Some v \<Rightarrow> v | None \<Rightarrow> Tier other)
     = (if h = ''constructor'' \<or> h = ''__proto__'' then Inherited h
        else Tier (case map_of [(''who.int'', federal)] h of Some t \<Rightarrow> t | None \<Rightarrow> other))"
proof -
  from assms(2) have own: "map_of DOMAIN_TIERS h = (if h = ''who.int'' then Some federal else None)"
    by (auto simp: DOMAIN_TIERS_def endsWith_def)
  show ?thesis
    unfolding DOMAIN_TIERS_get_def own inherited_lower_keys [OF assms(1)]
    by auto
qed

text \<open>Apart from the two host names that are lower-case names of inherited properties,
  \<open>tierFor\<close> is the tier rule of the specification on the lower-cased host name.\<close>

lemma tierFor_rule:
  "tierFor rt url
     = (case url_hostname rt url of
          None \<Rightarrow> Tier other
        | Some hn \<Rightarrow>
            if toLowerCase hn = ''constructor'' \<or> toLowerCase hn = ''__proto__''
            then Inherited (toLowerCase hn)
            else Tier (spec_tier (toLowerCase hn)))"
proof (cases "url_hostname rt url")
  case None
  then show ?thesis by (simp add: tierFor_def)
next
  case (Some hn)
  let ?h = "toLowerCase hn"
  have low: "\<forall>c \<in> set ?h. \<not> is_upper c"
    using toLowerCase_no_upper by blast
  show ?thesis
  proof (cases "endsWith ?h ''.gov''")
    case True
    then have "?h \<noteq> ''constructor''" "?h \<noteq> ''__proto__''"
      by (auto simp: endsWith_def)
    with True Some show ?thesis
      by (simp add: tierFor_def spec_tier_def Let_def)
  next
    case nogov: False
    show ?thesis
    proof (cases "endsWith ?h ''.us''")
      case True
      then have "?h \<noteq> ''constructor''" "?h \<noteq> ''__proto__''"
        by (auto simp: endsWith_def)
      with True nogov Some show ?thesis
        by (simp add: tierFor_def spec_tier_def Let_def)
    next
      case False
      with nogov Some show ?thesis
        by (simp add: tierFor_def spec_tier_def Let_def DOMAIN_TIERS_get_lower [OF low nogov])
    qed
  qed
qed

text \<open>The tier is written when the document is created, from the document's own URL, and
  every document of the final output still carries that value.\<close>

lemma tier_set_at_creation:
  "(\<forall>d. fetchAndParse rt url = Some d \<longrightarrow> d_url d = url \<and> d_tier d = Some (tierFor rt url))
   \<and> (\<forall>ds. fetchAuthoritative rt e clock location question = Inr ds \<longrightarrow>
         (\<forall>d \<in> set ds. d_tier d = Some (tierFor rt (d_url d))))"
proof (intro conjI allI impI ballI)
  fix d assume "fetchAndParse rt url = Some d"
  then show "d_url d = url" "d_tier d = Some (tierFor rt url)"
    using fetchAndParse_url_tier by blast+
next
  fix ds d
  assume "fetchAuthoritative rt e clock location question = Inr ds" and "d \<in> set ds"
  then obtain seeds where "d \<in> set (rank rt e location clock (rawDocs rt seeds))"
    by (auto dest: fetchAuthoritative_Inr)
  from in_rank [OF this] obtain d' i where raw: "d' \<in> set (rawDocs rt seeds)"
    and d: "d = d'\<lparr>d_score :=
                 Some (score rt baseAllow (deriveLocalDomains location) location (clock i) d')\<rparr>"
    by (elim exE conjE)
  from in_rawDocs [OF raw] obtain u where "fetchAndParse rt u = Some d'" by blast
  then have "d_url d' = u" "d_tier d' = Some (tierFor rt u)"
    using fetchAndParse_url_tier by blast+
  with d show "d_tier d = Some (tierFor rt (d_url d))" by simp
qed

text \<open>
  Claim C4. The claim gives every host name that does not end in \<open>.gov\<close> or \<open>.us\<close> and
  is not in the table the tier \<open>other\<close>. The code reads the table with \<open>DOMAIN_TIERS[h]\<close>,
  which also finds inherited properties: for the URLs \<open>http://constructor/\<close> and
  \<open>http://__proto__/\<close> it returns the inherited property, not a tier, where the rule of
  the claim gives \<open>other\<close>.
\<close>

theorem tierFor_inherited_property:
  "tierFor sample_rt ''http://constructor/'' = Inherited ''constructor''
   \<and> tierFor sample_rt ''http://__proto__/'' = Inherited ''__proto__''
   \<and> spec_tier ''constructor'' = other
   \<and> spec_tier ''__proto__'' = other"
  by code_simp

section \<open>The content type of a fetched document\<close>

text \<open>
  Claim C10. The \<open>contentType\<close> of a document returned by \<open>fetchAndParse\<close> is one of the
  two literals \<open>text/html\<close> and \<open>application/pdf\<close>, whatever the header says: a header
  that contains \<open>pdf\<close> gives \<open>application/pdf\<close>, and any other header (it then contains
  \<open>html\<close> or \<open>text\<close>, \<open>text/plain\<close> for one) gives \<open>text/html\<close>.
\<close>

theorem contentType_literal:
  "fetchAndParse rt url = Some d \<Longrightarrow>
     \<exists>res. http_get rt url = Some res
       \<and> (d_contentType d = Some ''text/html'' \<or> d_contentType d = Some ''application/pdf'')
       \<and> (includes_str (or_empty (content_type res)) ''pdf''
              \<longrightarrow> d_contentType d = Some ''application/pdf'')
       \<and> (\<not> includes_str (or_empty (content_type res)) ''pdf''
              \<longrightarrow> (includes_str (or_empty (content_type res)) ''html''
                     \<or> includes_str (or_empty (content_type res)) ''text'')
                  \<and> d_contentType d = Some ''text/html'')"
proof -
  assume "fetchAndParse rt url = Some d"
  from fetchAndParse_Some [OF this] obtain res buf lastMod where
    res: "http_get rt url = Some res"
    and alt: "(includes_str (or_empty (content_type res)) ''pdf''
                \<and> (\<exists>doc. parsePdf rt url buf = Inr doc \<and> backfill rt doc lastMod = Inr d))
              \<or> (\<not> includes_str (or_empty (content_type res)) ''pdf''
                   \<and> (includes_str (or_empty (content_type res)) ''html''
                        \<or> includes_str (or_empty (content_type res)) ''text'')
                   \<and> backfill rt (parseHtml rt url buf) lastMod = Inr d)"
    by blast
  from alt consider
    (pdf) doc where "includes_str (or_empty (content_type res)) ''pdf''"
      "parsePdf rt url buf = Inr doc" "backfill rt doc lastMod = Inr d"
  | (html) "\<not> includes_str (or_empty (content_type res)) ''pdf''"
      "includes_str (or_empty (content_type res)) ''html''
         \<or> includes_str (or_empty (content_type res)) ''text''"
      "backfill rt (parseHtml rt url buf) lastMod = Inr d"
    by blast
  then show ?thesis
  proof cases
    case pdf
    then have "d_contentType d = Some ''application/pdf''"
      using parsePdf_fields [of rt url buf doc] backfill_fields [of rt doc lastMod d] by simp
    with res pdf show ?thesis by simp
  next
    case html
    then have "d_contentType d = Some ''text/html''"
      using backfill_fields [of rt "parseHtml rt url buf" lastMod d]
      by (simp add: parseHtml_fields)
    with res html show ?thesis by simp
  qed
qed

theorem contentType_literal_witness:
  "\<exists>d res. fetchAndParse sample_rt ''https://www.austintexas.gov/department/water'' = Some d
     \<and> http_get sample_rt ''https://www.austintexas.gov/department/water'' = Some res
     \<and> content_type res = Some ''text/plain; charset=utf-8''
     \<and> d_contentType d = Some ''text/html''"
proof -
  let ?u = "''https://www.austintexas.gov/department/water''"
  have "fetchAndParse sample_rt ?u \<noteq> None"
    by code_simp
  then obtain d where d: "fetchAndParse sample_rt ?u = Some d"
    by blast
  have ct: "map_option content_type (http_get sample_rt ?u) = Some (Some ''text/plain; charset=utf-8'')"
    by code_simp
  have nopdf: "\<not> includes_str ''text/plain; charset=utf-8'' ''pdf''"
    by code_simp
  from contentType_literal [OF d] obtain res where res: "http_get sample_rt ?u = Some res"
    and imp: "\<not> includes_str (or_empty (content_type res)) ''pdf''
              \<longrightarrow> (includes_str (or_empty (content_type res)) ''html''
                     \<or> includes_str (or_empty (content_type res)) ''text'')
                  \<and> d_contentType d = Some ''text/html''"
    by blast
  from ct res have c: "content_type res = Some ''text/plain; charset=utf-8''"
    by simp
  with nopdf imp have "d_contentType d = Some ''text/html''"
    by (simp add: or_empty_def)
  with d res c show ?thesis by blast
qed

section \<open>The score\<close>

lemma days_lt: "(real_of_int x / 86400000 < real n) \<longleftrightarrow> (x < int n * 86400000)"
proof -
  have "(real_of_int x / 86400000 < real n) \<longleftrightarrow> (real_of_int x < real_of_int (int n * 86400000))"
    by (simp add: field_simps)
  also have "\<dots> \<longleftrightarrow> (x < int n * 86400000)"
    by (simp only: of_int_less_iff)
  finally show ?thesis .
qed

lemma recency_step:
  "(if truthy p
    then (case ageDays rt now (or_empty p) of
            None \<Rightarrow> s
          | Some a \<Rightarrow> if a < 60 then s + 2 else if a < 365 then s + 1 else s)
    else s) = s + spec_recency rt now p"
proof (cases p)
  case None
  then show ?thesis by (simp add: truthy_def spec_recency_def)
next
  case (Some q)
  show ?thesis
  proof (cases "date_getTime rt q")
    case None
    with Some show ?thesis
      by (simp add: truthy_def spec_recency_def or_empty_def ageDays_def)
  next
    case (Some t)
    with \<open>p = Some q\<close> show ?thesis
      using days_lt [of "now - t" 60] days_lt [of "now - t" 365]
      by (simp add: truthy_def spec_recency_def or_empty_def ageDays_def)
  qed
qed

lemma score_sum:
  "score rt base lcl location now d =
     (if hostMatchesAllowed rt (d_url d) base then 3 else 0)
   + (if hostMatchesAllowed rt (d_url d) lcl then 4 else 0)
   + (if strongLocationMatch (d_title d) (d_text d) location then 2 else 0)
   + (if safety_pattern (or_empty (d_text d) @ '' '' @ d_title d) then 2 else 0)
   + (if jargon_pattern (or_empty (d_text d) @ '' '' @ d_title d) then 1 else 0)
   + spec_recency rt now (d_publishedAt d)"
  unfolding score_def Let_def recency_step by simp

lemma score_ignores_score [simp]:
  "score rt base lcl location now (d\<lparr>d_score := x\<rparr>) = score rt base lcl location now d"
  by (simp add: score_def)

lemma spec_recency_mono:
  assumes "p1 \<noteq> []" "p2 \<noteq> []" "date_getTime rt p1 = Some t1" "date_getTime rt p2 = Some t2"
    and "t2 \<le> t1"
  shows "spec_recency rt now (Some p2) \<le> spec_recency rt now (Some p1)"
  using assms by (simp add: spec_recency_def)

text \<open>
  Claim C3. The score of a document is the sum of 3 when its host matches a base allow-list
  domain, 4 when it matches a location-derived domain, 2 when the strong-location-match test
  holds, 2 when text and title match the safety pattern, 1 when they match the jargon
  pattern, and the recency term (2 under 60 days of age, 1 under 365 days, 0 otherwise and for
  a missing or invalid date); nothing is normalised, and this sum is the score that every
  returned document carries.
\<close>

theorem score_weights:
  "score rt base lcl location now d =
     (if hostMatchesAllowed rt (d_url d) base then 3 else 0)
   + (if hostMatchesAllowed rt (d_url d) lcl then 4 else 0)
   + (if strongLocationMatch (d_title d) (d_text d) location then 2 else 0)
   + (if safety_pattern (or_empty (d_text d) @ '' '' @ d_title d) then 2 else 0)
   + (if jargon_pattern (or_empty (d_text d) @ '' '' @ d_title d) then 1 else 0)
   + spec_recency rt now (d_publishedAt d)
   \<and> (\<forall>ds. fetchAuthoritative rt e clock location question = Inr ds \<longrightarrow>
         (\<forall>x \<in> set ds. \<exists>i.
            d_score x = Some (score rt baseAllow (deriveLocalDomains location) location
                                (clock i) x)))"
proof (intro conjI allI impI ballI)
  show "score rt base lcl location now d =
     (if hostMatchesAllowed rt (d_url d) base then 3 else 0)
   + (if hostMatchesAllowed rt (d_url d) lcl then 4 else 0)
   + (if strongLocationMatch (d_title d) (d_text d) location then 2 else 0)
   + (if safety_pattern (or_empty (d_text d) @ '' '' @ d_title d) then 2 else 0)
   + (if jargon_pattern (or_empty (d_text d) @ '' '' @ d_title d) then 1 else 0)
   + spec_recency rt now (d_publishedAt d)"
    by (rule score_sum)
next
  fix ds x
  assume "fetchAuthoritative rt e clock location question = Inr ds" and "x \<in> set ds"
  then obtain seeds where "x \<in> set (rank rt e location clock (rawDocs rt seeds))"
    by (auto dest: fetchAuthoritative_Inr)
  from in_rank [OF this] obtain d' i where
    x: "x = d'\<lparr>d_score :=
                 Some (score rt baseAllow (deriveLocalDomains location) location (clock i) d')\<rparr>"
    by (elim exE conjE)
  then have "d_score x
      = Some (score rt baseAllow (deriveLocalDomains location) location (clock i) x)"
    by simp
  then show "\<exists>i. d_score x
      = Some (score rt baseAllow (deriveLocalDomains location) location (clock i) x)" ..
qed

theorem score_weights_witness:
  "score sample_rt baseAllow (deriveLocalDomains ''Austin, TX'') ''Austin, TX'' 1730000000000
     sample_doc_local = 0 + 4 + 2 + 0 + 1 + 2"
proof -
  let ?lcl = "deriveLocalDomains ''Austin, TX''"
  have "\<not> hostMatchesAllowed sample_rt (d_url sample_doc_local) baseAllow"
    and "hostMatchesAllowed sample_rt (d_url sample_doc_local) ?lcl"
    and "strongLocationMatch (d_title sample_doc_local) (d_text sample_doc_local) ''Austin, TX''"
    and "\<not> safety_pattern (or_empty (d_text sample_doc_local) @ '' '' @ d_title sample_doc_local)"
    and "jargon_pattern (or_empty (d_text sample_doc_local) @ '' '' @ d_title sample_doc_local)"
    and "spec_recency sample_rt 1730000000000 (d_publishedAt sample_doc_local) = 2"
    by code_simp+
  with score_weights [where rt = sample_rt and base = baseAllow and lcl = ?lcl
      and location = "''Austin, TX''" and now = 1730000000000 and d = sample_doc_local,
      THEN conjunct1]
  show ?thesis by simp
qed

section \<open>Recency\<close>

text \<open>
  Claim C6. For two documents that differ only in \<open>publishedAt\<close>, both dates valid, and one
  evaluation time, the document with the more recent date scores at least as much as the other.
\<close>

theorem recency_monotone:
  assumes "d_publishedAt d1 = Some p1" and "p1 \<noteq> []" and "date_getTime rt p1 = Some t1"
    and "d2 = d1\<lparr>d_publishedAt := Some p2\<rparr>" and "p2 \<noteq> []" and "date_getTime rt p2 = Some t2"
    and "t2 \<le> t1"
  shows "score rt base lcl location now d2 \<le> score rt base lcl location now d1"
proof -
  from assms have "spec_recency rt now (Some p2) \<le> spec_recency rt now (Some p1)"
    by (intro spec_recency_mono)
  with assms show ?thesis
    by (simp add: score_sum)
qed

theorem recency_monotone_witness:
  "score sample_rt baseAllow [''austintexas.gov''] ''Austin, TX'' 1730000000000
     (sample_doc_local\<lparr>d_publishedAt := Some ''2023-01-01T00:00:00.000Z''\<rparr>)
   \<le> score sample_rt baseAllow [''austintexas.gov''] ''Austin, TX'' 1730000000000
        sample_doc_local"
proof (rule recency_monotone)
  show "d_publishedAt sample_doc_local = Some ''2024-10-01T00:00:00.000Z''"
    by (simp add: sample_doc_local_def)
  show "date_getTime sample_rt ''2024-10-01T00:00:00.000Z'' = Some 1727740800000"
    by (simp add: sample_rt_def)
  show "date_getTime sample_rt ''2023-01-01T00:00:00.000Z'' = Some 1672531200000"
    by (simp add: sample_rt_def)
qed simp_all

section \<open>White space, lines and joins\<close>


lemma set_trim_subset: "set (trim s) \<subseteq> set s"
proof
  fix c assume "c \<in> set (trim s)"
  then have "c \<in> set (dropWhile is_space (rev (dropWhile is_space s)))"
    by (simp add: trim_def)
  then have "c \<in> set (rev (dropWhile is_space s))" by (rule set_dropWhileD)
  then have "c \<in> set (dropWhile is_space s)" by simp
  then show "c \<in> set s" by (rule set_dropWhileD)
qed


lemma collapse_ws_chars:
  "c \<in> set (collapse_ws s) \<Longrightarrow> c = CHR '' '' \<or> (c \<in> set s \<and> \<not> is_space c)"
  by (induction s rule: collapse_ws.induct) (auto split: if_splits)

lemma newline_is_space: "is_space (CHR 0x0A)"
  by (simp add: is_space_def)

lemma no_newline_collapse_ws: "CHR 0x0A \<notin> set (collapse_ws s)"
  using collapse_ws_chars [of "CHR 0x0A" s] newline_is_space by auto

lemma no_newline_cleanText: "CHR 0x0A \<notin> set (cleanText s)"
  using set_trim_subset [of "collapse_ws s"] no_newline_collapse_ws [of s]
  by (auto simp: cleanText_def)


lemma split_nl_no_newline: "CHR 0x0A \<notin> set s \<Longrightarrow> split_nl s = [s]"
  by (induction s) auto

lemma pdf_text_cleanText: "pdf_text chunks = cleanText (join [CHR 0x0A] chunks)"
  by (simp add: pdf_text_def cleanText_def)



lemma pdf_title_eq:
  "pdf_title (pdf_text chunks)
     = (if pdf_text chunks = [] then ''PDF'' else take 120 (pdf_text chunks))"
proof -
  have "split_nl (pdf_text chunks) = [pdf_text chunks]"
    by (simp add: pdf_text_cleanText split_nl_no_newline no_newline_cleanText)
  then show ?thesis
    by (simp add: pdf_title_def slice0_def)
qed

section \<open>The page loop\<close>



lemma parsePdf_text:
  "parsePdf rt url buf = Inr d \<Longrightarrow>
     \<exists>pages chunks. pdf_getDocument rt buf = Some pages
       \<and> extract_pages pages (min (length pages) 12) 1 [] = Inr chunks
       \<and> d_text d = Some (pdf_text chunks) \<and> d_title d = pdf_title (pdf_text chunks)"
  by (auto simp: parsePdf_def Let_def split: option.splits sum.splits)


section \<open>The cap on PDF extraction\<close>















section \<open>The title of a PDF\<close>

text \<open>
  Claim C9. The text of a PDF document is the extracted text with its white space collapsed
  and trimmed, so it has no line break and its first line is the whole text; the title is
  that first line cut to 120 characters, and \<open>PDF\<close> when that is empty.
\<close>

theorem pdf_title_first_line:
  "parsePdf rt url buf = Inr d \<Longrightarrow>
     \<exists>chunks text. d_text d = Some text \<and> text = cleanText (join [CHR 0x0A] chunks)
       \<and> split_nl text = [text]
       \<and> d_title d = (case split_nl text of
                        [] \<Rightarrow> ''PDF''
                      | l # _ \<Rightarrow> if take 120 l = [] then ''PDF'' else take 120 l)
       \<and> d_title d = (if text = [] then ''PDF'' else take 120 text)"
proof -
  assume "parsePdf rt url buf = Inr d"
  from parsePdf_text [OF this] obtain chunks where
    t: "d_text d = Some (pdf_text chunks)" and ti: "d_title d = pdf_title (pdf_text chunks)"
    by blast
  let ?text = "pdf_text chunks"
  have c: "?text = cleanText (join [CHR 0x0A] chunks)" by (rule pdf_text_cleanText)
  have s: "split_nl ?text = [?text]"
    by (simp add: c split_nl_no_newline no_newline_cleanText)
  from ti have t1: "d_title d = (if ?text = [] then ''PDF'' else take 120 ?text)"
    by (simp add: pdf_title_eq)
  with s have t2: "d_title d = (case split_nl ?text of
                        [] \<Rightarrow> ''PDF''
                      | l # _ \<Rightarrow> if take 120 l = [] then ''PDF'' else take 120 l)"
    by simp
  from t c s t1 t2 show ?thesis by blast
qed

theorem pdf_title_first_line_witness:
  "\<exists>d. parsePdf sample_rt ''https://www.epa.gov/ccr/report.pdf'' ''%PDF'' = Inr d
     \<and> d_text d = Some ''Consumer Confidence Report Your water system''
     \<and> d_title d = ''Consumer Confidence Report Your water system''"
proof -
  let ?r = "parsePdf sample_rt ''https://www.epa.gov/ccr/report.pdf'' ''%PDF''"
  have "map_sum id d_text ?r = Inr (Some ''Consumer Confidence Report Your water system'')"
    by code_simp
  then obtain d where d: "?r = Inr d"
    and dt: "d_text d = Some ''Consumer Confidence Report Your water system''"
    by (cases ?r) auto
  from pdf_title_first_line [OF d] dt
  have "d_title d = ''Consumer Confidence Report Your water system''"
    by auto
  with d dt show ?thesis by blast
qed

section \<open>Substrings and tokens\<close>

lemma startsWith_iff: "startsWith s t \<longleftrightarrow> (\<exists>q. s = t @ q)"
proof
  assume "startsWith s t"
  then have "s = t @ drop (length t) s"
    by (metis append_take_drop_id startsWith_def)
  then show "\<exists>q. s = t @ q" ..
next
  assume "\<exists>q. s = t @ q"
  then show "startsWith s t" by (auto simp: startsWith_def)
qed

lemma includes_str_iff: "includes_str s t \<longleftrightarrow> (\<exists>p q. s = p @ t @ q)"
proof (induction s)
  case Nil
  then show ?case by simp
next
  case (Cons c cs)
  show ?case
  proof
    assume "includes_str (c # cs) t"
    then consider "startsWith (c # cs) t" | "includes_str cs t" by auto
    then show "\<exists>p q. c # cs = p @ t @ q"
    proof cases
      case 1
      then obtain q where "c # cs = t @ q" by (auto simp: startsWith_iff)
      then have "c # cs = [] @ t @ q" by simp
      then show ?thesis by blast
    next
      case 2
      with Cons.IH obtain p q where "cs = p @ t @ q" by blast
      then have "c # cs = (c # p) @ t @ q" by simp
      then show ?thesis by blast
    qed
  next
    assume "\<exists>p q. c # cs = p @ t @ q"
    then obtain p q where pq: "c # cs = p @ t @ q" by blast
    show "includes_str (c # cs) t"
    proof (cases p)
      case Nil
      with pq have "startsWith (c # cs) t" by (auto simp: startsWith_iff)
      then show ?thesis by simp
    next
      case (Cons a p')
      with pq have "cs = p' @ t @ q" by simp
      with Cons.IH have "includes_str cs t" by blast
      then show ?thesis by simp
    qed
  qed
qed

lemma split_ws_nonempty: "split_ws s \<noteq> []"
  by (induction s rule: split_ws.induct) (auto split: list.splits)

lemma split_ws_chars:
  "t \<in> set (split_ws s) \<Longrightarrow> c \<in> set t \<Longrightarrow> c \<in> set s \<and> \<not> is_space c"
proof (induction s arbitrary: t rule: split_ws.induct)
  case 1
  then show ?case by simp
next
  case (2 a cs)
  show ?case
  proof (cases "is_space a")
    case True
    with 2 show ?thesis by (auto split: if_splits)
  next
    case False
    obtain u us where sp: "split_ws cs = u # us"
      using split_ws_nonempty [of cs] by (cases "split_ws cs") auto
    with False "2.prems" have "t = a # u \<or> t \<in> set us" by simp
    then show ?thesis
    proof
      assume "t = a # u"
      with "2.prems" have "c = a \<or> c \<in> set u" by auto
      then show ?thesis
      proof
        assume "c = a" with False show ?thesis by simp
      next
        assume "c \<in> set u"
        with "2.IH"(3) [OF False, of u] sp show ?thesis by simp
      qed
    next
      assume "t \<in> set us"
      with "2.IH"(3) [OF False, of t] sp "2.prems" show ?thesis by simp
    qed
  qed
qed

lemma tokens_chars:
  assumes "t \<in> set (tokens loc)"
  shows "t \<noteq> [] \<and> (\<forall>c \<in> set t. is_lower_alnum c)"
proof -
  let ?m = "map (\<lambda>c. if is_lower_alnum c \<or> is_space c then c else CHR '' '') (norm_str loc)"
  from assms have ne: "t \<noteq> []" and mem: "t \<in> set (split_ws ?m)"
    by (simp_all add: tokens_def)
  have "is_lower_alnum c" if "c \<in> set t" for c
  proof -
    have "c \<in> set ?m \<and> \<not> is_space c" by (rule split_ws_chars [OF mem that])
    then have cm: "c \<in> set ?m" and ns: "\<not> is_space c" by blast+
    from cm have "c \<in> (\<lambda>c. if is_lower_alnum c \<or> is_space c then c else CHR '' '') ` set (norm_str loc)"
      by (simp only: set_map)
    then obtain c0 where c0: "c = (if is_lower_alnum c0 \<or> is_space c0 then c0 else CHR '' '')"
      by blast
    have sp: "is_space (CHR '' '')" by (simp add: is_space_def)
    show ?thesis
    proof (cases "is_lower_alnum c0 \<or> is_space c0")
      case True
      with c0 have "c = c0" by simp
      with True ns show ?thesis by blast
    next
      case False
      with c0 have "c = CHR '' ''" by simp
      with sp ns show ?thesis by simp
    qed
  qed
  with ne show ?thesis by blast
qed

lemma length_filter_distinct:
  "distinct xs \<Longrightarrow> length (filter P xs) = card {x \<in> set xs. P x}"
proof -
  assume d: "distinct xs"
  then have "distinct (filter P xs)" by simp
  then have "card (set (filter P xs)) = length (filter P xs)" by (rule distinct_card)
  then show ?thesis by simp
qed

section \<open>The strong location match\<close>

text \<open>
  Claim C5, as amended. The strong-location-match test holds iff, with \<open>T\<close> the set of
  distinct tokens of the location (the maximal runs of \<open>a-z\<close> and \<open>0-9\<close> of the lower-cased
  location, of any length), the number of tokens of \<open>T\<close> of length at least 3 that are
  substrings of the lower-cased string title, space, text is at least
  \<open>min 2 (max 1 (card T div 2))\<close>.
\<close>

theorem strongLocationMatch_distinct_tokens:
  "(strongLocationMatch docTitle docText loc \<longleftrightarrow>
      card {t \<in> set (tokens loc). length t \<ge> 3
              \<and> (\<exists>p q. toLowerCase (docTitle @ '' '' @ or_empty docText) = p @ t @ q)}
        \<ge> min 2 (max 1 (card (set (tokens loc)) div 2)))
   \<and> (\<forall>t \<in> set (tokens loc). t \<noteq> [] \<and> (\<forall>c \<in> set t. is_lower_alnum c))"
proof
  let ?want = "set_add_all [] (tokens loc)"
  have d: "distinct ?want" by (simp add: distinct_set_add_all)
  have s: "set ?want = set (tokens loc)" by (simp add: set_set_add_all)
  from d have "length ?want = card (set (tokens loc))"
    using distinct_card [of ?want] s by simp
  moreover have "length (filter (\<lambda>t. length t \<ge> 3
        \<and> includes_str (toLowerCase (docTitle @ '' '' @ or_empty docText)) t) ?want)
      = card {t \<in> set (tokens loc). length t \<ge> 3
              \<and> (\<exists>p q. toLowerCase (docTitle @ '' '' @ or_empty docText) = p @ t @ q)}"
    using length_filter_distinct [OF d] s by (simp add: includes_str_iff)
  ultimately show "strongLocationMatch docTitle docText loc \<longleftrightarrow>
      card {t \<in> set (tokens loc). length t \<ge> 3
              \<and> (\<exists>p q. toLowerCase (docTitle @ '' '' @ or_empty docText) = p @ t @ q)}
        \<ge> min 2 (max 1 (card (set (tokens loc)) div 2))"
    by (simp add: strongLocationMatch_def Let_def)
next
  show "\<forall>t \<in> set (tokens loc). t \<noteq> [] \<and> (\<forall>c \<in> set t. is_lower_alnum c)"
    using tokens_chars by blast
qed

theorem strongLocationMatch_distinct_tokens_witness:
  "tokens ''New York City NY'' = [''new'', ''york'', ''city'', ''ny'']
   \<and> card {t \<in> set (tokens ''New York City NY''). length t \<ge> 3
              \<and> (\<exists>p q. toLowerCase (''York water report'' @ '' '' @ or_empty (Some ''Water in York''))
                        = p @ t @ q)}
        < min 2 (max 1 (card (set (tokens ''New York City NY'')) div 2))
   \<and> is_lower_alnum (CHR ''y'')"
proof -
  have tk: "tokens ''New York City NY'' = [''new'', ''york'', ''city'', ''ny'']"
    by code_simp
  have no: "\<not> strongLocationMatch ''York water report'' (Some ''Water in York'') ''New York City NY''"
    by code_simp
  note th = strongLocationMatch_distinct_tokens [where docTitle = "''York water report''"
      and docText = "Some ''Water in York''" and loc = "''New York City NY''"]
  from th [THEN conjunct1] no
  have "\<not> min 2 (max 1 (card (set (tokens ''New York City NY'')) div 2))
          \<le> card {t \<in> set (tokens ''New York City NY''). length t \<ge> 3
              \<and> (\<exists>p q. toLowerCase (''York water report'' @ '' '' @ or_empty (Some ''Water in York''))
                        = p @ t @ q)}"
    by blast
  then have less: "card {t \<in> set (tokens ''New York City NY''). length t \<ge> 3
              \<and> (\<exists>p q. toLowerCase (''York water report'' @ '' '' @ or_empty (Some ''Water in York''))
                        = p @ t @ q)}
        < min 2 (max 1 (card (set (tokens ''New York City NY'')) div 2))"
    by (simp only: not_le)
  have "''york'' \<in> set (tokens ''New York City NY'')"
    by (simp only: tk) simp
  with th [THEN conjunct2] have "\<forall>c \<in> set ''york''. is_lower_alnum c"
    by blast
  then have "is_lower_alnum (CHR ''y'')"
    by simp
  with tk less show ?thesis by (intro conjI)
qed

text \<open>
  Claim C5 as it is worded counts the tokens of length at least 3 in \<open>token_count\<close>. For the
  location \<open>New York City NY\<close> that count is 3 and the threshold 1, so a document that only
  mentions York would match; the code counts all four distinct tokens, its threshold is 2,
  and the document does not match.
\<close>

theorem strongLocationMatch_counterexample:
  "spec_strongLocationMatch ''York water report'' (Some ''Water in York'') ''New York City NY''
   \<and> \<not> strongLocationMatch ''York water report'' (Some ''Water in York'') ''New York City NY''"
  by code_simp

section \<open>Failures of one URL, and the search\<close>

lemma fetchAndParse_failures:
  "(http_get rt url = None \<longrightarrow> fetchAndParse rt url = None)
   \<and> (\<forall>res. http_get rt url = Some res \<and> \<not> (200 \<le> status res \<and> status res \<le> 299)
          \<longrightarrow> fetchAndParse rt url = None)
   \<and> (\<forall>res. http_get rt url = Some res
            \<and> \<not> includes_str (or_empty (content_type res)) ''pdf''
            \<and> \<not> includes_str (or_empty (content_type res)) ''html''
            \<and> \<not> includes_str (or_empty (content_type res)) ''text''
          \<longrightarrow> fetchAndParse rt url = None)
   \<and> (\<forall>err. fetchAndParse_try rt url = Inl err \<longrightarrow> fetchAndParse rt url = None)"
  by (auto simp: fetchAndParse_def fetchAndParse_try_def fetchBuffer_def
      split: sum.splits option.splits)

lemma fetchAndParse_typed:
  "fetchAndParse rt url = Some d \<Longrightarrow>
     d_contentType d = Some ''text/html'' \<or> d_contentType d = Some ''application/pdf''"
proof -
  assume "fetchAndParse rt url = Some d"
  from fetchAndParse_Some [OF this] consider
    (pdf) buf lastMod doc where "parsePdf rt url buf = Inr doc" "backfill rt doc lastMod = Inr d"
  | (html) buf lastMod where "backfill rt (parseHtml rt url buf) lastMod = Inr d"
    by blast
  then show ?thesis
  proof cases
    case pdf
    then show ?thesis
      using parsePdf_fields [of rt url buf doc] backfill_fields [of rt doc lastMod d] by simp
  next
    case html
    then show ?thesis
      using backfill_fields [of rt "parseHtml rt url buf" lastMod d]
      by (simp add: parseHtml_fields)
  qed
qed

lemma rawDocs_skips_failure:
  "fetchAndParse rt u = None \<Longrightarrow> rawDocs rt (xs @ u # ys) = rawDocs rt xs @ rawDocs rt ys"
  by (simp add: rawDocs_def List.map_filter_def)

lemma fetchAuthoritative_without_search:
  "\<not> search_enabled e \<Longrightarrow> \<exists>ds. fetchAuthoritative rt e clock location question = Inr ds"
  by (simp add: fetchAuthoritative_def seeds_of_no_search)

text \<open>
  Claim C8. \<open>fetchAndParse\<close> itself never raises (lemmas \<open>fetchAndParse_failures\<close>,
  \<open>fetchAndParse_typed\<close>, \<open>rawDocs_skips_failure\<close>), and without the search the facade
  always returns a list. With the search enabled, a rejected search request is not caught by
  \<open>tavilySearch\<close> or by \<open>fetchAuthoritative\<close>: the exception leaves the facade.
\<close>

theorem search_rejection_leaves_facade:
  "search_enabled env_search
   \<and> fetchAuthoritative sample_rt env_search (\<lambda>i. 0) ''Austin, TX'' ''Is my tap water safe?''
       = Inl SearchRejected"
  by code_simp

end
